theory Spec2Isabelle
  imports Main "HOL-Library.Word"
begin

section \<open>JavaScript string primitives used by the server\<close>

text \<open>
  Strings are lists of characters. The three library methods the server calls on
  addresses and paths are written out: \<^verbatim>\<open>s.startsWith(p)\<close>,
  \<^verbatim>\<open>s.replace(pat, rep)\<close> with a string pattern (which replaces the first
  occurrence only, wherever it is), and \<^verbatim>\<open>s.split(sep)\<close> with a one-character
  separator (which always returns at least one component).
\<close>

fun js_startsWith :: "string \<Rightarrow> string \<Rightarrow> bool" where
  "js_startsWith s [] = True"
| "js_startsWith [] (p # ps) = False"
| "js_startsWith (c # cs) (p # ps) = (c = p \<and> js_startsWith cs ps)"

fun js_replace :: "string \<Rightarrow> string \<Rightarrow> string \<Rightarrow> string" where
  "js_replace pat rep [] = (if pat = [] then rep else [])"
| "js_replace pat rep (c # cs) =
     (if js_startsWith (c # cs) pat then rep @ drop (length pat) (c # cs)
      else c # js_replace pat rep cs)"

fun js_split :: "char \<Rightarrow> string \<Rightarrow> string list" where
  "js_split sep [] = [[]]"
| "js_split sep (c # cs) =
     (if c = sep then [] # js_split sep cs
      else (case js_split sep cs of
              [] \<Rightarrow> [[c]]
            | w # ws \<Rightarrow> (c # w) # ws))"

text \<open>
  \<^verbatim>\<open>parseInt(s)\<close> without a radix: leading (ASCII) white space is skipped, a
  sign is read, a \<^verbatim>\<open>0x\<close> prefix selects base 16, and the longest prefix of digits is
  the value. No digit at all is \<^verbatim>\<open>NaN\<close>, here \<open>None\<close>; every comparison with
  \<^verbatim>\<open>NaN\<close> is false. \<^verbatim>\<open>parseInt(undefined)\<close> is \<^verbatim>\<open>NaN\<close> as well.
\<close>

definition isWhiteSpace :: "char \<Rightarrow> bool" where
  "isWhiteSpace c = (of_char c \<in> {9, 10, 11, 12, 13, 32 :: nat})"

definition digitValue :: "char \<Rightarrow> nat option" where
  "digitValue c =
     (let n = (of_char c :: nat) in
      if 48 \<le> n \<and> n \<le> 57 then Some (n - 48)
      else if 97 \<le> n \<and> n \<le> 122 then Some (n - 87)
      else if 65 \<le> n \<and> n \<le> 90 then Some (n - 55)
      else None)"

fun parseDigits :: "nat \<Rightarrow> string \<Rightarrow> nat option \<Rightarrow> nat option" where
  "parseDigits radix [] acc = acc"
| "parseDigits radix (c # cs) acc =
     (case digitValue c of
        None \<Rightarrow> acc
      | Some d \<Rightarrow>
          if d < radix
          then parseDigits radix cs (Some ((case acc of None \<Rightarrow> 0 | Some a \<Rightarrow> a) * radix + d))
          else acc)"

definition parseInt :: "string option \<Rightarrow> int option" where
  "parseInt arg =
     (case arg of
        None \<Rightarrow> None
      | Some s \<Rightarrow>
          (let t = dropWhile isWhiteSpace s;
               neg = js_startsWith t ''-'';
               u = (if js_startsWith t ''-'' \<or> js_startsWith t ''+'' then tl t else t);
               hex = (js_startsWith u ''0x'' \<or> js_startsWith u ''0X'');
               v = (if hex then parseDigits 16 (drop 2 u) None else parseDigits 10 u None)
           in map_option (\<lambda>n. if neg then - int n else int n) v))"

text \<open>Array indexing \<^verbatim>\<open>parts[i]\<close>: out of range is \<^verbatim>\<open>undefined\<close>.\<close>

definition js_index :: "'a list \<Rightarrow> nat \<Rightarrow> 'a option" where
  "js_index xs i = (if i < length xs then Some (xs ! i) else None)"

section \<open>Configuration (config.js)\<close>

record env =
  DEPLOYMENT_MODE :: "string option"
  PORT :: "string option"
  SERVER_URL :: "string option"
  HTTPS_ENABLED :: "string option"
  HTTPS_PORT :: "string option"

record config =
  mode :: string
  ssid :: string
  wifiPassword :: string
  wifiHidden :: bool
  sessionSecret :: string
  sessionName :: string
  cookieMaxAge :: nat
  adminPassword :: string
  port :: string
  serverIp :: "string option"
  esp32Ip :: string
  udpPort :: nat
  httpsEnabled :: bool
  httpsPort :: string

text \<open>\<^verbatim>\<open>process.env.X || d\<close>: an unset or empty variable gives the default.\<close>

definition env_or :: "string option \<Rightarrow> string \<Rightarrow> string" where
  "env_or v d = (case v of None \<Rightarrow> d | Some s \<Rightarrow> if s = [] then d else s)"

definition config_of_env :: "env \<Rightarrow> config" where
  "config_of_env e =
     \<lparr> mode = env_or (DEPLOYMENT_MODE e) ''local'',
       ssid = ''Pathum'',
       wifiPassword = ''PATHUM@@123'',
       wifiHidden = False,
       sessionSecret = ''change-this-secret-key-in-production'',
       sessionName = ''audio_stream_session'',
       cookieMaxAge = 24 * 60 * 60 * 1000,
       adminPassword = ''admin123'',
       port = env_or (PORT e) ''10000'',
       serverIp = (case SERVER_URL e of None \<Rightarrow> None | Some s \<Rightarrow> if s = [] then None else Some s),
       esp32Ip = ''192.168.1.25'',
       udpPort = 5005,
       httpsEnabled = (HTTPS_ENABLED e = Some ''true'' \<or> True),
       httpsPort = env_or (HTTPS_PORT e) ''8443'' \<rparr>"

section \<open>Server address detection (getServerIP)\<close>

record iface =
  family :: string
  internal :: bool
  address :: string

definition int_eq :: "int option \<Rightarrow> int \<Rightarrow> bool" where
  "int_eq a n = (case a of None \<Rightarrow> False | Some v \<Rightarrow> v = n)"

definition int_ge :: "int option \<Rightarrow> int \<Rightarrow> bool" where
  "int_ge a n = (case a of None \<Rightarrow> False | Some v \<Rightarrow> v \<ge> n)"

definition int_le :: "int option \<Rightarrow> int \<Rightarrow> bool" where
  "int_le a n = (case a of None \<Rightarrow> False | Some v \<Rightarrow> v \<le> n)"

definition isPrivateIP :: "string \<Rightarrow> bool" where
  "isPrivateIP ip =
     (let parts = js_split (CHR ''.'') ip;
          firstOctet = parseInt (js_index parts 0);
          secondOctet = parseInt (js_index parts 1)
      in (int_eq firstOctet 192 \<and> int_eq secondOctet 168)
         \<or> int_eq firstOctet 10
         \<or> (int_eq firstOctet 172 \<and> int_ge secondOctet 16 \<and> int_le secondOctet 31))"

fun scanIfaces :: "iface list \<Rightarrow> string option" where
  "scanIfaces [] = None"
| "scanIfaces (i # is) =
     (if family i = ''IPv4'' \<and> \<not> internal i \<and> isPrivateIP (address i)
      then Some (address i) else scanIfaces is)"

fun scanInterfaces :: "(string \<times> iface list) list \<Rightarrow> string option" where
  "scanInterfaces [] = None"
| "scanInterfaces ((name, is) # rest) =
     (case scanIfaces is of Some ip \<Rightarrow> Some ip | None \<Rightarrow> scanInterfaces rest)"

definition getServerIP :: "(string \<times> iface list) list \<Rightarrow> string" where
  "getServerIP interfaces =
     (case scanInterfaces interfaces of Some ip \<Rightarrow> ip | None \<Rightarrow> ''0.0.0.0'')"

section \<open>Requests, sessions and responses\<close>

datatype http_method = GET | HEAD | POST | OTHER

text \<open>
  What the body parsers \<^verbatim>\<open>express.json()\<close> and \<^verbatim>\<open>express.urlencoded()\<close>, which
  are registered before every route, make of the body of a request. Either they pass
  the request on with \<^verbatim>\<open>req.body\<close> set, of which the handlers read the member
  \<^verbatim>\<open>password\<close> only (\<open>None\<close> where it is \<^verbatim>\<open>undefined\<close>, as for a request
  without body); or they reject the body with an error that carries an HTTP status
  (400 for malformed JSON, 413 for a body over the size limit, 415 for an unsupported
  charset or encoding), whatever the method and the path of the request are.
\<close>

datatype parsed_body = Parsed "string option" | Rejected nat

text \<open>
  The fields of an Express request that the server reads (\<open>reqMethod\<close> is
  \<^verbatim>\<open>req.method\<close>). \<open>ip\<close> and
  \<open>remoteAddress\<close> are \<open>None\<close> where the JavaScript value is \<^verbatim>\<open>undefined\<close>;
  \<open>now\<close> is the reading of \<^verbatim>\<open>new Date().toISOString()\<close> while the request is
  handled, and \<open>body\<close> the outcome of the body parsers.
\<close>

record request =
  reqMethod :: http_method
  path :: string
  ip :: "string option"
  remoteAddress :: "string option"
  protocol :: "string option"
  host :: "string option"
  body :: parsed_body
  now :: string

text \<open>\<^verbatim>\<open>const { password } = req.body\<close>.\<close>

definition bodyPassword :: "request \<Rightarrow> string option" where
  "bodyPassword req = (case body req of Parsed password \<Rightarrow> password | Rejected status \<Rightarrow> None)"

text \<open>
  The members of \<^verbatim>\<open>req.session\<close> that the server writes. A member that was never
  set is \<^verbatim>\<open>undefined\<close>, which every test of the source treats as false. The
  session middleware is registered before every handler, so a handler of the
  application always finds a session object; the upgrade handler, which calls the
  middleware itself, tests for a missing one.
\<close>

record session =
  authenticated :: bool
  connectedAt :: "string option"
  adminAuthenticated :: bool

definition newSession :: session where
  "newSession = \<lparr> authenticated = False, connectedAt = None, adminAuthenticated = False \<rparr>"

text \<open>
  What a handler answers: \<^verbatim>\<open>res.status(n).send(body)\<close>, \<^verbatim>\<open>res.status(n).json(obj)\<close>
  (status 200 when none is set), \<^verbatim>\<open>res.redirect(n, url)\<close>, the answer of the QR code
  route (made from the WiFi string and the server URL by the QR code library), a file
  of the website folder (the static file at the path when there is one,
  \<^verbatim>\<open>index.html\<close> otherwise), the 404 of Express when no handler is left, and the
  error page of its default error handler, with the status of the error: that of a
  rejected body, or 500 when a handler throws.
\<close>

datatype json = JBool bool | JString string

datatype response =
    Send nat string
  | Json nat "(string \<times> json) list"
  | Redirect nat string
  | QrCodes string string
  | WebsiteFile string
  | NotFound
  | ErrorPage nat

datatype error = TypeError string

section \<open>Network validation (isOnCorrectNetwork)\<close>

text \<open>\<^verbatim>\<open>req.ip || req.connection.remoteAddress\<close>: the empty string is falsy too.\<close>

definition clientIP_of :: "request \<Rightarrow> string option" where
  "clientIP_of req =
     (case ip req of
        None \<Rightarrow> remoteAddress req
      | Some a \<Rightarrow> if a = [] then remoteAddress req else Some a)"

definition stripMapped :: "string \<Rightarrow> string" where
  "stripMapped clientIP = js_replace ''::ffff:'' '''' clientIP"

definition isLoopback :: "string \<Rightarrow> bool" where
  "isLoopback a = (a = ''127.0.0.1'' \<or> a = ''::1'' \<or> a = ''localhost'')"

text \<open>
  The comparison of lines 96 to 113: both addresses split on the dot into exactly four
  components, and the first three components are equal as strings.
\<close>

definition sameSubnet :: "string \<Rightarrow> string \<Rightarrow> bool" where
  "sameSubnet a SERVER_IP =
     (let clientParts = js_split (CHR ''.'') a;
          serverParts = js_split (CHR ''.'') SERVER_IP
      in length clientParts = 4 \<and> length serverParts = 4
         \<and> clientParts ! 0 = serverParts ! 0
         \<and> clientParts ! 1 = serverParts ! 1
         \<and> clientParts ! 2 = serverParts ! 2)"

definition isOnCorrectNetwork :: "config \<Rightarrow> string \<Rightarrow> request \<Rightarrow> error + bool" where
  "isOnCorrectNetwork cfg SERVER_IP req =
     (if mode cfg = ''public'' then Inr True
      else (case clientIP_of req of
              None \<Rightarrow>
                Inl (TypeError (''Cannot read properties of undefined (reading ''
                       @ [CHR 0x27] @ ''replace'' @ [CHR 0x27] @ '')''))
            | Some clientIP \<Rightarrow>
                (let a = stripMapped clientIP in
                 if isLoopback a then Inr True
                 else if sameSubnet a SERVER_IP then Inr True
                 else Inr False)))"

section \<open>The HTTP gate (requireNetworkAccess)\<close>

text \<open>
  The text of the denial page, in the three pieces that the two interpolations of the
  template leave; the sign in the page is four bytes of UTF-8.
\<close>

definition denialPage_head :: string where
  \<open>denialPage_head =
       ''\<newline>''
     @ ''            <!DOCTYPE html>\<newline>''
     @ ''            <html>\<newline>''
     @ ''            <head>\<newline>''
     @ ''                <title>Access Denied</title>\<newline>''
     @ ''                <style>\<newline>''
     @ ''                    body {\<newline>''
     @ ''                        font-family: Arial, sans-serif;\<newline>''
     @ ''                        display: flex;\<newline>''
     @ ''                        align-items: center;\<newline>''
     @ ''                        justify-content: center;\<newline>''
     @ ''                        min-height: 100vh;\<newline>''
     @ ''                        margin: 0;\<newline>''
     @ ''                        background: linear-gradient(135deg, #667eea 0%, #764ba2 100%);\<newline>''
     @ ''                    }\<newline>''
     @ ''                    .container {\<newline>''
     @ ''                        background: white;\<newline>''
     @ ''                        padding: 40px;\<newline>''
     @ ''                        border-radius: 10px;\<newline>''
     @ ''                        box-shadow: 0 10px 25px rgba(0,0,0,0.2);\<newline>''
     @ ''                        text-align: center;\<newline>''
     @ ''                        max-width: 500px;\<newline>''
     @ ''                    }\<newline>''
     @ ''                    h1 { color: #f44336; margin-bottom: 20px; }\<newline>''
     @ ''                    p { color: #666; line-height: 1.6; }\<newline>''
     @ ''                    .icon { font-size: 60px; margin-bottom: 20px; }\<newline>''
     @ ''                    .instructions {\<newline>''
     @ ''                        background: #fff3cd;\<newline>''
     @ ''                        padding: 15px;\<newline>''
     @ ''                        border-radius: 8px;\<newline>''
     @ ''                        margin-top: 20px;\<newline>''
     @ ''                        text-align: left;\<newline>''
     @ ''                        border-left: 4px solid #ffc107;\<newline>''
     @ ''                    }\<newline>''
     @ ''                </style>\<newline>''
     @ ''            </head>\<newline>''
     @ ''            <body>\<newline>''
     @ ''                <div class="container">\<newline>''
     @ ''                    <div class="icon">''
     @ [CHR 0xF0, CHR 0x9F, CHR 0x9A, CHR 0xAB]
     @ ''</div>\<newline>''
     @ ''                    <h1>Access Denied</h1>\<newline>''
     @ ''                    <p>You must be connected to the <strong>''\<close>

definition denialPage_mid :: string where
  \<open>denialPage_mid =
       ''</strong> WiFi network to access this site.</p>\<newline>''
     @ ''                    <p style="color: #999; font-size: 12px; margin-top: 10px;">Deployment Mode: ''\<close>

definition denialPage_tail :: string where
  \<open>denialPage_tail =
       ''</p>\<newline>''
     @ ''                    <div class="instructions">\<newline>''
     @ ''                        <h3>How to Connect:</h3>\<newline>''
     @ ''                        <ol>\<newline>''
     @ ''                            <li>Scan the QR code provided</li>\<newline>''
     @ ''                            <li>Connect to the WiFi network</li>\<newline>''
     @ ''                            <li>Return to this page</li>\<newline>''
     @ ''                        </ol>\<newline>''
     @ ''                    </div>\<newline>''
     @ ''                </div>\<newline>''
     @ ''            </body>\<newline>''
     @ ''            </html>\<newline>''
     @ ''        ''\<close>

text \<open>
  The template literal of the denial page, with \<^verbatim>\<open>config.wifi.ssid\<close> and
  \<^verbatim>\<open>config.deployment.mode\<close> interpolated.
\<close>

definition denialPage :: "string \<Rightarrow> string \<Rightarrow> string" where
  "denialPage wifiSsid deploymentMode =
     denialPage_head @ wifiSsid @ denialPage_mid @ deploymentMode @ denialPage_tail"

datatype gate = Next | Respond response

definition requireNetworkAccess ::
  "config \<Rightarrow> string \<Rightarrow> request \<Rightarrow> session \<Rightarrow> error + (gate \<times> session)" where
  "requireNetworkAccess cfg SERVER_IP req s =
     (case isOnCorrectNetwork cfg SERVER_IP req of
        Inl e \<Rightarrow> Inl e
      | Inr ok \<Rightarrow>
          if ok
          then Inr (Next,
                    if \<not> authenticated s
                    then s\<lparr> authenticated := True, connectedAt := Some (now req) \<rparr>
                    else s)
          else Inr (Respond (Send 403 (denialPage (ssid cfg) (mode cfg))), s))"

section \<open>Routes, in the order the server registers them\<close>

text \<open>
  Express matches a route path without regard to case and with an optional trailing
  slash (its defaults, which the server does not change); \<^verbatim>\<open>app.get\<close> also
  answers HEAD. All route paths of the server are lower case.
\<close>

definition toLowerAscii :: "char \<Rightarrow> char" where
  "toLowerAscii c =
     (case map_of (zip ''ABCDEFGHIJKLMNOPQRSTUVWXYZ'' ''abcdefghijklmnopqrstuvwxyz'') c of
        None \<Rightarrow> c
      | Some l \<Rightarrow> l)"

definition routeMatch :: "string \<Rightarrow> string \<Rightarrow> bool" where
  "routeMatch pat p = (let lp = map toLowerAscii p in lp = pat \<or> lp = pat @ ''/'')"

definition isGet :: "http_method \<Rightarrow> bool" where
  "isGet m = (m = GET \<or> m = HEAD)"

definition getServerUrl :: "config \<Rightarrow> string \<Rightarrow> request \<Rightarrow> string" where
  "getServerUrl cfg SERVER_IP req =
     (if SERVER_IP \<noteq> ''0.0.0.0''
      then (if httpsEnabled cfg then ''https://'' @ SERVER_IP @ '':'' @ httpsPort cfg
            else ''http://'' @ SERVER_IP @ '':'' @ port cfg)
      else env_or (protocol req) ''http'' @ ''://''
           @ (case host req of None \<Rightarrow> ''undefined'' | Some h \<Rightarrow> h))"

definition captivePaths :: "string list" where
  "captivePaths =
     [''/hotspot-detect.html'', ''/generate_204'', ''/gen_204'', ''/ncsi.txt'',
      ''/connecttest.txt'']"

definition wifiString :: "config \<Rightarrow> string" where
  "wifiString cfg =
     ''WIFI:T:WPA;S:'' @ ssid cfg @ '';P:'' @ wifiPassword cfg @ '';H:''
     @ (if wifiHidden cfg then ''true'' else ''false'') @ '';;''"

text \<open>
  What follows the network validation: the static file server and the catch-all
  \<^verbatim>\<open>app.get('*')\<close>, which answer GET and HEAD with a file of the website folder;
  any other method reaches the end of the stack, which Express answers with 404.
\<close>

definition website :: "request \<Rightarrow> response" where
  "website req = (if isGet (reqMethod req) then WebsiteFile (path req) else NotFound)"

text \<open>
  The routes registered before the network validation, in registration order. Each of
  them answers the request it matches and never passes it on; \<open>None\<close> is a request
  that none of them matches. The result is the response and the session after the
  request (\<open>None\<close> once \<^verbatim>\<open>req.session.destroy\<close> has run).
\<close>

definition routes ::
  "config \<Rightarrow> string \<Rightarrow> request \<Rightarrow> session \<Rightarrow> (response \<times> session option) option" where
  "routes cfg SERVER_IP req s =
     (if reqMethod req = POST \<and> routeMatch ''/api/login'' (path req) then
        Some (Json 200 [(''success'', JBool True),
                        (''message'', JString ''Successfully authenticated!''),
                        (''ssid'', JString (ssid cfg))],
              Some (s\<lparr> authenticated := True, connectedAt := Some (now req) \<rparr>))
      else if reqMethod req = POST \<and> routeMatch ''/api/logout'' (path req) then
        Some (Json 200 [(''success'', JBool True)], None)
      else if isGet (reqMethod req) \<and> routeMatch ''/api/auth-status'' (path req) then
        Some (Json 200 [(''authenticated'', JBool (authenticated s))], Some s)
      else if reqMethod req = POST \<and> routeMatch ''/api/admin/login'' (path req) then
        (if bodyPassword req = Some (adminPassword cfg)
         then Some (Json 200 [(''success'', JBool True)],
                    Some (s\<lparr> adminAuthenticated := True \<rparr>))
         else Some (Json 401 [(''success'', JBool False),
                              (''error'', JString ''Invalid admin password'')], Some s))
      else if isGet (reqMethod req) \<and> routeMatch ''/api/admin/qr-code'' (path req) then
        (if \<not> adminAuthenticated s
         then Some (Json 401 [(''error'', JString ''Admin authentication required'')], Some s)
         else Some (QrCodes (wifiString cfg) (getServerUrl cfg SERVER_IP req), Some s))
      else if isGet (reqMethod req) \<and> routeMatch ''/health'' (path req) then
        Some (Send 200 ''ok'', Some s)
      else if isGet (reqMethod req)
              \<and> list_ex (\<lambda>p. routeMatch p (path req)) (captivePaths @ [''/redirect'']) then
        Some (Redirect 302 (getServerUrl cfg SERVER_IP req), Some s)
      else None)"

text \<open>
  The middleware registered after them (\<^verbatim>\<open>app.use\<close>, lines 346 to 353): the
  administrative paths skip the check, every other request goes through
  \<^verbatim>\<open>requireNetworkAccess\<close>.
\<close>

definition isAdminPath :: "string \<Rightarrow> bool" where
  "isAdminPath p = (js_startsWith p ''/api/admin'' \<or> p = ''/admin.html'')"

definition networkValidation ::
  "config \<Rightarrow> string \<Rightarrow> request \<Rightarrow> session \<Rightarrow> error + (gate \<times> session)" where
  "networkValidation cfg SERVER_IP req s =
     (if isAdminPath (path req) then Inr (Next, s)
      else requireNetworkAccess cfg SERVER_IP req s)"

text \<open>
  What follows the body parsers and the session middleware: the routes, then the
  network validation, then the website. An exception thrown by a handler is answered
  by the default error handler of Express with status 500; the process goes on.
\<close>

definition routing ::
  "config \<Rightarrow> string \<Rightarrow> request \<Rightarrow> session \<Rightarrow> response \<times> session option" where
  "routing cfg SERVER_IP req s =
     (case routes cfg SERVER_IP req s of
        Some answer \<Rightarrow> answer
      | None \<Rightarrow>
          (case networkValidation cfg SERVER_IP req s of
             Inl e \<Rightarrow> (ErrorPage 500, Some s)
           | Inr (Next, s') \<Rightarrow> (website req, Some s')
           | Inr (Respond r, s') \<Rightarrow> (r, Some s')))"

text \<open>
  The application, as the stack of \<^verbatim>\<open>app.use\<close>, \<^verbatim>\<open>app.get\<close> and
  \<^verbatim>\<open>app.post\<close> in registration order: the security headers (which answer
  nothing), the body parsers, the session middleware, then the routing. A body that
  the parsers reject is answered by the default error handler with the status of the
  error before the session is loaded and before any route is tried. The session store
  is taken not to fail.
\<close>

definition app ::
  "config \<Rightarrow> string \<Rightarrow> request \<Rightarrow> session \<Rightarrow> response \<times> session option" where
  "app cfg SERVER_IP req s =
     (case body req of
        Rejected status \<Rightarrow> (ErrorPage status, Some s)
      | Parsed password \<Rightarrow> routing cfg SERVER_IP req s)"

section \<open>WebSocket upgrade and the UDP relay\<close>

text \<open>
  A frame is a sequence of bytes; a datagram is one call
  \<^verbatim>\<open>udp.send(data, UDP_PORT, ESP32_IP)\<close>.
\<close>

type_synonym frame = "8 word list"

record datagram =
  payload :: frame
  destPort :: nat
  destAddress :: string

text \<open>
  The state the upgrade handler and the WebSocket handlers act on. Sockets are named by
  numbers. \<open>connections\<close> holds the sockets for which \<^verbatim>\<open>wss.handleUpgrade\<close> was
  called and the \<^verbatim>\<open>connection\<close> handler ran, which is the only place where a
  \<^verbatim>\<open>message\<close> listener is attached; \<open>socketWrites\<close> and \<open>destroyed\<close> record
  \<^verbatim>\<open>socket.write\<close> and \<^verbatim>\<open>socket.destroy\<close>; \<open>udpSent\<close> is the sequence of
  calls of \<^verbatim>\<open>udp.send\<close>. Console output is not part of the state.
\<close>

record server =
  connections :: "nat list"
  socketWrites :: "(nat \<times> string) list"
  destroyed :: "nat list"
  udpSent :: "datagram list"

datatype event =
    Upgrade nat "session option"
  | Message nat frame
  | Close nat
  | Error nat string

definition unauthorizedLine :: string where
  "unauthorizedLine = ''HTTP/1.1 401 Unauthorized'' @ [CHR 0x0D, CHR 0x0A, CHR 0x0D, CHR 0x0A]"

text \<open>\<^verbatim>\<open>request.session && request.session.authenticated\<close>, as a truth value.\<close>

definition sessionAuthenticated :: "session option \<Rightarrow> bool" where
  "sessionAuthenticated so = (case so of None \<Rightarrow> False | Some s \<Rightarrow> authenticated s)"

definition onUpgrade :: "nat \<Rightarrow> session option \<Rightarrow> server \<Rightarrow> server" where
  "onUpgrade sock so st =
     (if \<not> sessionAuthenticated so
      then st\<lparr> socketWrites := socketWrites st @ [(sock, unauthorizedLine)],
               destroyed := destroyed st @ [sock] \<rparr>
      else st\<lparr> connections := connections st @ [sock] \<rparr>)"

definition onMessage :: "config \<Rightarrow> frame \<Rightarrow> server \<Rightarrow> server" where
  "onMessage cfg data st =
     st\<lparr> udpSent := udpSent st
            @ [\<lparr> payload = data, destPort = udpPort cfg, destAddress = esp32Ip cfg \<rparr>] \<rparr>"

text \<open>
  One event. A \<^verbatim>\<open>message\<close> event on a socket that has no WebSocket has no
  listener. The \<^verbatim>\<open>close\<close> and \<^verbatim>\<open>error\<close> handlers only write to the console;
  that a closed WebSocket receives no further message is the library's doing.
\<close>

fun step :: "config \<Rightarrow> event \<Rightarrow> server \<Rightarrow> server" where
  "step cfg (Upgrade sock so) st = onUpgrade sock so st"
| "step cfg (Message sock data) st =
     (if sock \<in> set (connections st) then onMessage cfg data st else st)"
| "step cfg (Close sock) st = st\<lparr> connections := removeAll sock (connections st) \<rparr>"
| "step cfg (Error sock msg) st = st"

fun run :: "config \<Rightarrow> event list \<Rightarrow> server \<Rightarrow> server" where
  "run cfg [] st = st"
| "run cfg (e # es) st = run cfg es (step cfg e st)"

fun socketOf :: "event \<Rightarrow> nat" where
  "socketOf (Upgrade sock so) = sock"
| "socketOf (Message sock data) = sock"
| "socketOf (Close sock) = sock"
| "socketOf (Error sock msg) = sock"

fun framesOf :: "event list \<Rightarrow> frame list" where
  "framesOf [] = []"
| "framesOf (Message sock data # es) = data # framesOf es"
| "framesOf (e # es) = framesOf es"

text \<open>
  A sequence of events in which every \<^verbatim>\<open>message\<close> event arrives on a socket that
  holds a WebSocket at that moment, that is on an accepted relay connection.
\<close>

fun messagesOnConnections :: "config \<Rightarrow> server \<Rightarrow> event list \<Rightarrow> bool" where
  "messagesOnConnections cfg st [] = True"
| "messagesOnConnections cfg st (Message sock data # es) =
     (sock \<in> set (connections st) \<and> messagesOnConnections cfg (step cfg (Message sock data) st) es)"
| "messagesOnConnections cfg st (e # es) = messagesOnConnections cfg (step cfg e st) es"

section \<open>Fixtures for the concrete instances\<close>

definition noEnv :: env where
  "noEnv = \<lparr> DEPLOYMENT_MODE = None, PORT = None, SERVER_URL = None,
             HTTPS_ENABLED = None, HTTPS_PORT = None \<rparr>"

definition localConfig :: config where
  "localConfig = config_of_env noEnv"

definition publicConfig :: config where
  "publicConfig = config_of_env (noEnv\<lparr> DEPLOYMENT_MODE := Some ''public'' \<rparr>)"

definition requestFrom :: "http_method \<Rightarrow> string \<Rightarrow> string \<Rightarrow> request" where
  "requestFrom m p a =
     \<lparr> reqMethod = m, path = p, ip = Some a, remoteAddress = Some a,
       protocol = Some ''https'', host = Some ''example.test'', body = Parsed None,
       now = ''2025-01-01T00:00:00.000Z'' \<rparr>"

definition malformedBody :: "request \<Rightarrow> request" where
  "malformedBody req = req\<lparr> body := Rejected 400 \<rparr>"

definition idleServer :: server where
  "idleServer = \<lparr> connections = [], socketWrites = [], destroyed = [], udpSent = [] \<rparr>"

section \<open>Facts about the string primitives\<close>

lemma js_startsWith_iff: "js_startsWith s p \<longleftrightarrow> (\<exists>t. s = p @ t)"
  by (induction s p rule: js_startsWith.induct) auto

lemma js_startsWith_member: "js_startsWith s (c # p) \<Longrightarrow> c \<in> set s"
  by (cases s) auto

lemma js_replace_at_front: "p \<noteq> [] \<Longrightarrow> js_replace p r (p @ s) = r @ s"
proof -
  assume "p \<noteq> []"
  then obtain c q where p: "p = c # q" by (cases p) auto
  have "js_startsWith (c # q @ s) (c # q)"
    using js_startsWith_iff[of "c # q @ s" "c # q"] by simp
  then show ?thesis using p by simp
qed

lemma js_replace_absent: "c \<notin> set s \<Longrightarrow> js_replace (c # p) r s = s"
  by (induction s) (auto dest: js_startsWith_member)

text \<open>A replacement either leaves the string alone or cuts one occurrence out of it.\<close>

lemma js_replace_cases:
  assumes "p \<noteq> []"
  shows "js_replace p r s = s \<or> (\<exists>a b. s = a @ p @ b \<and> js_replace p r s = a @ r @ b)"
proof (induction s)
  case Nil
  then show ?case using assms by simp
next
  case (Cons c s)
  show ?case
  proof (cases "js_startsWith (c # s) p")
    case True
    then obtain t where t: "c # s = p @ t"
      by (auto simp: js_startsWith_iff)
    have "js_replace p r (c # s) = r @ drop (length p) (c # s)"
      using True by simp
    also have "\<dots> = [] @ r @ t"
      using t by simp
    finally show ?thesis
      using t by (metis append_Nil)
  next
    case False
    from Cons.IH show ?thesis
    proof
      assume "js_replace p r s = s"
      then show ?thesis using False by simp
    next
      assume "\<exists>a b. s = a @ p @ b \<and> js_replace p r s = a @ r @ b"
      then obtain a b where "s = a @ p @ b" and "js_replace p r s = a @ r @ b"
        by blast
      then have "c # s = (c # a) @ p @ b \<and> js_replace p r (c # s) = (c # a) @ r @ b"
        using False by simp
      then show ?thesis by blast
    qed
  qed
qed

lemma length_js_split: "length (js_split d s) = Suc (length (filter (\<lambda>c. c = d) s))"
  by (induction s) (auto split: list.splits)

lemma js_split_no_separator: "d \<notin> set x \<Longrightarrow> js_split d x = [x]"
  by (induction x) auto

lemma js_split_component: "d \<notin> set x \<Longrightarrow> js_split d (x @ d # rest) = x # js_split d rest"
  by (induction x) auto

lemma js_split_decompose:
  "js_split d s = w # ws \<Longrightarrow> d \<notin> set w \<and> (if ws = [] then s = w else (\<exists>rest. s = w @ d # rest \<and> js_split d rest = ws))"
proof (induction s arbitrary: w ws)
  case Nil
  then show ?case by simp
next
  case (Cons c s)
  show ?case
  proof (cases "c = d")
    case True
    then have "w = []" and "ws = js_split d s"
      using Cons.prems by simp_all
    moreover have "js_split d s \<noteq> []"
      using length_js_split[of d s] by auto
    ultimately show ?thesis using True by simp
  next
    case False
    obtain v vs where v: "js_split d s = v # vs"
      using length_js_split[of d s] by (cases "js_split d s") auto
    then have w: "w = c # v" and ws: "ws = vs"
      using Cons.prems False by simp_all
    from Cons.IH[OF v] have "d \<notin> set v"
      and rest: "if vs = [] then s = v else (\<exists>rest. s = v @ d # rest \<and> js_split d rest = vs)"
      by simp_all
    then show ?thesis using False w ws by (auto split: if_splits)
  qed
qed

text \<open>Removing the mapped prefix removes no dot, so the number of components stays.\<close>

lemma length_split_stripMapped:
  "length (js_split (CHR ''.'') (stripMapped c)) = length (js_split (CHR ''.'') c)"
proof -
  have "js_replace ''::ffff:'' '''' c = c
        \<or> (\<exists>a b. c = a @ ''::ffff:'' @ b \<and> js_replace ''::ffff:'' '''' c = a @ '''' @ b)"
    by (rule js_replace_cases) simp
  then show ?thesis
    by (auto simp: stripMapped_def length_js_split)
qed

lemma stripMapped_mapped: "stripMapped (''::ffff:'' @ d) = d"
  using js_replace_at_front[of "''::ffff:''" "''''" d] by (simp add: stripMapped_def)

lemma stripMapped_no_colon: "CHR '':'' \<notin> set d \<Longrightarrow> stripMapped d = d"
  by (simp add: stripMapped_def js_replace_absent)

section \<open>Facts about the subnet comparison\<close>

lemma list_of_length_4: "length xs = 4 \<Longrightarrow> \<exists>a b c d. xs = [a, b, c, d]"
  by (cases xs; simp; cases "tl xs"; simp; cases "tl (tl xs)"; simp; cases "tl (tl (tl xs))"; simp)

text \<open>
  What the comparison means on the strings themselves: both addresses are four
  dot-free components joined by dots, and the first three components are the same.
\<close>

lemma sameSubnet_dotted_quads:
  "sameSubnet a b \<longleftrightarrow>
     (\<exists>x y z w w'. CHR ''.'' \<notin> set x \<and> CHR ''.'' \<notin> set y \<and> CHR ''.'' \<notin> set z
        \<and> CHR ''.'' \<notin> set w \<and> CHR ''.'' \<notin> set w'
        \<and> a = x @ ''.'' @ y @ ''.'' @ z @ ''.'' @ w
        \<and> b = x @ ''.'' @ y @ ''.'' @ z @ ''.'' @ w')"
  (is "?L \<longleftrightarrow> ?R")
proof
  assume ?R
  then obtain x y z w w' where nd: "CHR ''.'' \<notin> set x" "CHR ''.'' \<notin> set y"
      "CHR ''.'' \<notin> set z" "CHR ''.'' \<notin> set w" "CHR ''.'' \<notin> set w'"
    and a: "a = x @ ''.'' @ y @ ''.'' @ z @ ''.'' @ w"
    and b: "b = x @ ''.'' @ y @ ''.'' @ z @ ''.'' @ w'"
    by blast
  have "js_split (CHR ''.'') a = [x, y, z, w]"
    using nd a by (simp add: js_split_component js_split_no_separator)
  moreover have "js_split (CHR ''.'') b = [x, y, z, w']"
    using nd b by (simp add: js_split_component js_split_no_separator)
  ultimately show ?L by (simp add: sameSubnet_def)
next
  assume L: ?L
  have quad: "\<exists>x y z w. CHR ''.'' \<notin> set x \<and> CHR ''.'' \<notin> set y \<and> CHR ''.'' \<notin> set z
        \<and> CHR ''.'' \<notin> set w \<and> s = x @ ''.'' @ y @ ''.'' @ z @ ''.'' @ w
        \<and> js_split (CHR ''.'') s = [x, y, z, w]"
    if len: "length (js_split (CHR ''.'') s) = 4" for s
  proof -
    from list_of_length_4[OF len] obtain x y z w where s: "js_split (CHR ''.'') s = [x, y, z, w]"
      by blast
    from js_split_decompose[OF s] obtain r1 where x: "CHR ''.'' \<notin> set x"
      and r1: "s = x @ CHR ''.'' # r1" "js_split (CHR ''.'') r1 = [y, z, w]"
      by auto
    from js_split_decompose[OF r1(2)] obtain r2 where y: "CHR ''.'' \<notin> set y"
      and r2: "r1 = y @ CHR ''.'' # r2" "js_split (CHR ''.'') r2 = [z, w]"
      by auto
    from js_split_decompose[OF r2(2)] obtain r3 where z: "CHR ''.'' \<notin> set z"
      and r3: "r2 = z @ CHR ''.'' # r3" "js_split (CHR ''.'') r3 = [w]"
      by auto
    from js_split_decompose[OF r3(2)] have w: "CHR ''.'' \<notin> set w" and r4: "r3 = w"
      by auto
    show ?thesis using x y z w r1 r2 r3 r4 s by auto
  qed
  from L have la: "length (js_split (CHR ''.'') a) = 4" and lb: "length (js_split (CHR ''.'') b) = 4"
    by (simp_all add: sameSubnet_def Let_def)
  from quad[OF la] obtain x y z w where qa: "CHR ''.'' \<notin> set x" "CHR ''.'' \<notin> set y"
      "CHR ''.'' \<notin> set z" "CHR ''.'' \<notin> set w" "a = x @ ''.'' @ y @ ''.'' @ z @ ''.'' @ w"
      "js_split (CHR ''.'') a = [x, y, z, w]"
    by blast
  from quad[OF lb] obtain x' y' z' w' where qb: "CHR ''.'' \<notin> set w'"
      "b = x' @ ''.'' @ y' @ ''.'' @ z' @ ''.'' @ w'"
      "js_split (CHR ''.'') b = [x', y', z', w']"
    by blast
  from L qa(6) qb(3) have "x = x'" "y = y'" "z = z'"
    by (simp_all add: sameSubnet_def)
  then show ?R using qa qb by blast
qed

lemma sameSubnet_fallback:
  "sameSubnet a ''0.0.0.0'' \<longleftrightarrow>
     length (js_split (CHR ''.'') a) = 4 \<and> take 3 (js_split (CHR ''.'') a) = [''0'', ''0'', ''0'']"
proof (cases "length (js_split (CHR ''.'') a) = 4")
  case True
  from list_of_length_4[OF True] obtain x y z w where "js_split (CHR ''.'') a = [x, y, z, w]"
    by blast
  then show ?thesis by (simp add: sameSubnet_def)
next
  case False
  then show ?thesis by (simp add: sameSubnet_def Let_def)
qed

lemma scanIfaces_None:
  "scanIfaces is = None \<longleftrightarrow>
     (\<forall>i \<in> set is. \<not> (family i = ''IPv4'' \<and> \<not> internal i \<and> isPrivateIP (address i)))"
  by (induction "is") auto

lemma scanInterfaces_None:
  "scanInterfaces interfaces = None \<longleftrightarrow>
     (\<forall>(name, is) \<in> set interfaces. \<forall>i \<in> set is.
        \<not> (family i = ''IPv4'' \<and> \<not> internal i \<and> isPrivateIP (address i)))"
  by (induction interfaces) (auto simp: scanIfaces_None split: option.splits)

lemmas fixture_defs =
  localConfig_def publicConfig_def noEnv_def config_of_env_def env_or_def requestFrom_def
  malformedBody_def newSession_def idleServer_def

lemmas network_defs =
  isOnCorrectNetwork_def clientIP_of_def stripMapped_def isLoopback_def sameSubnet_def

section \<open>The subnet authorizer\<close>

text \<open>
  Claim C6. Under the open (public) deployment mode the decision is allow for every
  request, whatever the client address and the server address are; the client address
  is not even read.
\<close>

theorem public_mode_allows_all:
  "mode cfg = ''public'' \<Longrightarrow> isOnCorrectNetwork cfg SERVER_IP req = Inr True"
  by (simp add: isOnCorrectNetwork_def)

theorem public_mode_allows_all_witness:
  "mode publicConfig = ''public''
   \<and> isOnCorrectNetwork publicConfig ''192.168.8.101''
        (requestFrom GET ''/'' ''103.45.67.89'') = Inr True"
proof -
  have m: "mode publicConfig = ''public''"
    by (simp add: fixture_defs)
  show ?thesis
    using m public_mode_allows_all[OF m, of "''192.168.8.101''" "requestFrom GET ''/'' ''103.45.67.89''"]
    by simp
qed

text \<open>
  Claim C1, as stated, read on the client address itself: the decision would be allow
  exactly when the client address is a loopback address or client and server address
  are dotted quads with equal leading three components. It fails for an IPv4-mapped
  client: \<^verbatim>\<open>::ffff:192.168.1.5\<close> is no loopback address (with or without its
  prefix), its first dot-separated component is \<^verbatim>\<open>::ffff:192\<close> and not
  \<^verbatim>\<open>192\<close>, and the server at \<^verbatim>\<open>192.168.1.100\<close> allows it all the same.
\<close>

theorem mapped_client_allowed_counterexample:
  "isOnCorrectNetwork localConfig ''192.168.1.100''
     (requestFrom GET ''/'' ''::ffff:192.168.1.5'') = Inr True
   \<and> \<not> isLoopback ''::ffff:192.168.1.5''
   \<and> \<not> isLoopback (stripMapped ''::ffff:192.168.1.5'')
   \<and> \<not> sameSubnet ''::ffff:192.168.1.5'' ''192.168.1.100''"
  by (simp add: network_defs fixture_defs)

text \<open>
  Claim C1, amended. Under the subnet-restricted mode (any mode but \<^verbatim>\<open>public\<close>)
  the decision is allow if and only if the client address, after the first
  \<^verbatim>\<open>::ffff:\<close> has been removed from it, is one of the loopback names or splits on
  the dot into four components, as the server address does, with the first three
  components equal; it is deny in every other case
  (\<open>sameSubnet_dotted_quads\<close> says what the comparison means on the strings).
\<close>

theorem subnet_restricted_decision:
  assumes "mode cfg \<noteq> ''public''" and "clientIP_of req = Some c"
  shows "isOnCorrectNetwork cfg SERVER_IP req
         = Inr (isLoopback (stripMapped c) \<or> sameSubnet (stripMapped c) SERVER_IP)"
  using assms by (simp add: isOnCorrectNetwork_def Let_def)

theorem subnet_restricted_decision_witness:
  "mode localConfig \<noteq> ''public''
   \<and> clientIP_of (requestFrom GET ''/'' ''192.168.8.102'') = Some ''192.168.8.102''
   \<and> isOnCorrectNetwork localConfig ''192.168.8.101'' (requestFrom GET ''/'' ''192.168.8.102'')
       = Inr True
   \<and> clientIP_of (requestFrom GET ''/'' ''192.168.9.50'') = Some ''192.168.9.50''
   \<and> isOnCorrectNetwork localConfig ''192.168.8.101'' (requestFrom GET ''/'' ''192.168.9.50'')
       = Inr False"
proof -
  have m: "mode localConfig \<noteq> ''public''"
    by (simp add: fixture_defs)
  have c1: "clientIP_of (requestFrom GET ''/'' ''192.168.8.102'') = Some ''192.168.8.102''"
    by (simp add: clientIP_of_def requestFrom_def)
  have c2: "clientIP_of (requestFrom GET ''/'' ''192.168.9.50'') = Some ''192.168.9.50''"
    by (simp add: clientIP_of_def requestFrom_def)
  have v1: "isLoopback (stripMapped ''192.168.8.102'')
            \<or> sameSubnet (stripMapped ''192.168.8.102'') ''192.168.8.101''"
    by (simp add: stripMapped_def isLoopback_def sameSubnet_def)
  have v2: "\<not> (isLoopback (stripMapped ''192.168.9.50'')
               \<or> sameSubnet (stripMapped ''192.168.9.50'') ''192.168.8.101'')"
    by (simp add: stripMapped_def isLoopback_def sameSubnet_def)
  show ?thesis
    using m c1 c2 v1 v2
      subnet_restricted_decision[OF m c1, of "''192.168.8.101''"]
      subnet_restricted_decision[OF m c2, of "''192.168.8.101''"]
    by simp
qed

text \<open>
  Claim C9. A client address that is \<^verbatim>\<open>::ffff:\<close> followed by an address without
  colon, as every dotted quad \<^verbatim>\<open>A.B.C.D\<close> is, gets the decision of that address
  alone, for the same configuration and server address.
\<close>

theorem mapped_prefix_same_decision:
  assumes "CHR '':'' \<notin> set d"
    and "clientIP_of req = Some (''::ffff:'' @ d)"
    and "clientIP_of req' = Some d"
  shows "isOnCorrectNetwork cfg SERVER_IP req = isOnCorrectNetwork cfg SERVER_IP req'"
proof -
  have "stripMapped (''::ffff:'' @ d) = d"
    by (rule stripMapped_mapped)
  moreover have "stripMapped d = d"
    using assms(1) by (rule stripMapped_no_colon)
  ultimately show ?thesis
    using assms(2,3) by (simp add: isOnCorrectNetwork_def)
qed

theorem mapped_prefix_same_decision_witness:
  "CHR '':'' \<notin> set ''192.168.8.102''
   \<and> clientIP_of (requestFrom GET ''/'' ''::ffff:192.168.8.102'')
       = Some (''::ffff:'' @ ''192.168.8.102'')
   \<and> clientIP_of (requestFrom GET ''/'' ''192.168.8.102'') = Some ''192.168.8.102''
   \<and> isOnCorrectNetwork localConfig ''192.168.8.101''
        (requestFrom GET ''/'' ''::ffff:192.168.8.102'')
       = isOnCorrectNetwork localConfig ''192.168.8.101''
           (requestFrom GET ''/'' ''192.168.8.102'')"
proof -
  have a: "CHR '':'' \<notin> set ''192.168.8.102''"
    by simp
  have b: "clientIP_of (requestFrom GET ''/'' ''::ffff:192.168.8.102'')
           = Some (''::ffff:'' @ ''192.168.8.102'')"
    by (simp add: clientIP_of_def requestFrom_def)
  have c: "clientIP_of (requestFrom GET ''/'' ''192.168.8.102'') = Some ''192.168.8.102''"
    by (simp add: clientIP_of_def requestFrom_def)
  show ?thesis
    using a b c mapped_prefix_same_decision[OF a b c, of localConfig "''192.168.8.101''"]
    by simp
qed

text \<open>
  Claim C10. Under the subnet-restricted mode a client address that is not a loopback
  address (the test of the source, on the address without the mapped prefix) and that
  does not split on the dot into exactly four components is denied, whatever the
  server address is. The count of components is that of the address as received:
  removing the prefix does not change it.
\<close>

theorem non_quad_client_denied:
  assumes "mode cfg \<noteq> ''public''" and "clientIP_of req = Some c"
    and "\<not> isLoopback (stripMapped c)"
    and "length (js_split (CHR ''.'') c) \<noteq> 4"
  shows "isOnCorrectNetwork cfg SERVER_IP req = Inr False"
proof -
  have "length (js_split (CHR ''.'') (stripMapped c)) \<noteq> 4"
    using assms(4) by (simp add: length_split_stripMapped)
  then have "\<not> sameSubnet (stripMapped c) SERVER_IP"
    by (simp add: sameSubnet_def Let_def)
  then show ?thesis
    using assms(1,2,3) by (simp add: isOnCorrectNetwork_def)
qed

theorem non_quad_client_denied_witness:
  "mode localConfig \<noteq> ''public''
   \<and> clientIP_of (requestFrom GET ''/'' ''fe80::1'') = Some ''fe80::1''
   \<and> \<not> isLoopback (stripMapped ''fe80::1'')
   \<and> length (js_split (CHR ''.'') ''fe80::1'') \<noteq> 4
   \<and> isOnCorrectNetwork localConfig ''192.168.8.101'' (requestFrom GET ''/'' ''fe80::1'')
       = Inr False"
proof -
  have m: "mode localConfig \<noteq> ''public''"
    by (simp add: fixture_defs)
  have c: "clientIP_of (requestFrom GET ''/'' ''fe80::1'') = Some ''fe80::1''"
    by (simp add: clientIP_of_def requestFrom_def)
  have l: "\<not> isLoopback (stripMapped ''fe80::1'')"
    by (simp add: stripMapped_def isLoopback_def)
  have n: "length (js_split (CHR ''.'') ''fe80::1'') \<noteq> 4"
    by simp
  show ?thesis
    using m c l n non_quad_client_denied[OF m c l n, of "''192.168.8.101''"]
    by simp
qed

text \<open>
  Claim C5, as stated: with no private interface found the server address is the
  fallback \<^verbatim>\<open>0.0.0.0\<close>, and every client that is not a loopback address would be
  denied. The fallback is itself a dotted quad and is compared like any other server
  address, so the client \<^verbatim>\<open>0.0.0.5\<close>, which is no loopback address, is allowed.
\<close>

theorem fallback_address_allows_counterexample:
  "getServerIP [(''lo'', [\<lparr> family = ''IPv4'', internal = True, address = ''127.0.0.1'' \<rparr>])]
     = ''0.0.0.0''
   \<and> \<not> isLoopback ''0.0.0.5''
   \<and> \<not> isLoopback (stripMapped ''0.0.0.5'')
   \<and> isOnCorrectNetwork localConfig
        (getServerIP [(''lo'', [\<lparr> family = ''IPv4'', internal = True, address = ''127.0.0.1'' \<rparr>])])
        (requestFrom GET ''/'' ''0.0.0.5'') = Inr True"
  by (simp add: getServerIP_def network_defs fixture_defs)

text \<open>
  Claim C5, amended. When the scan of the interfaces finds no private, non-internal
  IPv4 address, the server address is \<^verbatim>\<open>0.0.0.0\<close>, and under the subnet-restricted
  mode every client is denied whose address (without the mapped prefix) is neither a
  loopback address nor a four-component address that begins \<^verbatim>\<open>0.0.0.\<close>
\<close>

theorem fallback_address_denies:
  assumes "scanInterfaces interfaces = None"
    and "mode cfg \<noteq> ''public''" and "clientIP_of req = Some c"
    and "\<not> isLoopback (stripMapped c)"
    and "\<not> (length (js_split (CHR ''.'') (stripMapped c)) = 4
            \<and> take 3 (js_split (CHR ''.'') (stripMapped c)) = [''0'', ''0'', ''0''])"
  shows "getServerIP interfaces = ''0.0.0.0''
         \<and> isOnCorrectNetwork cfg (getServerIP interfaces) req = Inr False"
proof -
  have ip: "getServerIP interfaces = ''0.0.0.0''"
    using assms(1) by (simp add: getServerIP_def)
  have "\<not> sameSubnet (stripMapped c) ''0.0.0.0''"
    using assms(5) by (simp only: sameSubnet_fallback not_False_eq_True)
  then show ?thesis
    using ip assms(2,3,4) by (simp add: isOnCorrectNetwork_def)
qed

theorem fallback_address_denies_witness:
  "scanInterfaces [(''lo'', [\<lparr> family = ''IPv4'', internal = True, address = ''127.0.0.1'' \<rparr>]),
                   (''eth0'', [\<lparr> family = ''IPv4'', internal = False, address = ''8.8.4.4'' \<rparr>])]
     = None
   \<and> mode localConfig \<noteq> ''public''
   \<and> clientIP_of (requestFrom GET ''/'' ''192.168.8.102'') = Some ''192.168.8.102''
   \<and> \<not> isLoopback (stripMapped ''192.168.8.102'')
   \<and> \<not> (length (js_split (CHR ''.'') (stripMapped ''192.168.8.102'')) = 4
          \<and> take 3 (js_split (CHR ''.'') (stripMapped ''192.168.8.102'')) = [''0'', ''0'', ''0''])
   \<and> isOnCorrectNetwork localConfig
        (getServerIP [(''lo'', [\<lparr> family = ''IPv4'', internal = True, address = ''127.0.0.1'' \<rparr>]),
                      (''eth0'', [\<lparr> family = ''IPv4'', internal = False, address = ''8.8.4.4'' \<rparr>])])
        (requestFrom GET ''/'' ''192.168.8.102'') = Inr False"
proof -
  let ?ifs = "[(''lo'', [\<lparr> family = ''IPv4'', internal = True, address = ''127.0.0.1'' \<rparr>]),
               (''eth0'', [\<lparr> family = ''IPv4'', internal = False, address = ''8.8.4.4'' \<rparr>])]"
  have s: "scanInterfaces ?ifs = None"
    by (simp add: isPrivateIP_def parseInt_def js_index_def digitValue_def isWhiteSpace_def
        int_eq_def int_ge_def int_le_def)
  have m: "mode localConfig \<noteq> ''public''"
    by (simp add: fixture_defs)
  have c: "clientIP_of (requestFrom GET ''/'' ''192.168.8.102'') = Some ''192.168.8.102''"
    by (simp add: clientIP_of_def requestFrom_def)
  have l: "\<not> isLoopback (stripMapped ''192.168.8.102'')"
    by (simp add: stripMapped_def isLoopback_def)
  have q: "\<not> (length (js_split (CHR ''.'') (stripMapped ''192.168.8.102'')) = 4
          \<and> take 3 (js_split (CHR ''.'') (stripMapped ''192.168.8.102'')) = [''0'', ''0'', ''0''])"
    by (simp add: stripMapped_def)
  from fallback_address_denies[OF s m c l q]
  have r: "isOnCorrectNetwork localConfig (getServerIP ?ifs)
             (requestFrom GET ''/'' ''192.168.8.102'') = Inr False"
    by (rule conjunct2)
  show ?thesis
    using s m c l q r by blast
qed

section \<open>The HTTP gate and the routes\<close>

lemmas route_defs = routes_def routeMatch_def toLowerAscii_def isGet_def captivePaths_def

lemma denialPage_names_network:
  "\<exists>before after. denialPage wifiSsid deploymentMode = before @ wifiSsid @ after"
proof -
  have "denialPage wifiSsid deploymentMode
        = denialPage_head @ wifiSsid @ (denialPage_mid @ deploymentMode @ denialPage_tail)"
    by (simp add: denialPage_def)
  then show ?thesis by blast
qed

lemma requireNetworkAccess_denied:
  "isOnCorrectNetwork cfg SERVER_IP req = Inr False \<Longrightarrow>
   requireNetworkAccess cfg SERVER_IP req s
   = Inr (Respond (Send 403 (denialPage (ssid cfg) (mode cfg))), s)"
  by (simp add: requireNetworkAccess_def)

lemma website_not_403: "website req \<noteq> Send 403 page"
  by (simp add: website_def)

text \<open>
  Claim C7. A request that reaches the network validation (no earlier route matches it
  and it is no administrative path) and is denied there gets status 403 with the
  denial page. The page is the fixed template with the network name and the deployment
  mode of the configuration filled in: it does not depend on the session, on the
  request or on the server address. The gate answers itself and does not pass the
  request on, so the response is not the website's, the session is left as it was, and
  the result is a response, not an exception. The routing answers so for every such
  request, and with it the application for every request that the body parsers have
  passed on to the routing.
\<close>

theorem gate_denial_is_403:
  assumes "routes cfg SERVER_IP req s = None"
    and "\<not> isAdminPath (path req)"
    and "isOnCorrectNetwork cfg SERVER_IP req = Inr False"
  shows "requireNetworkAccess cfg SERVER_IP req s
           = Inr (Respond (Send 403 (denialPage (ssid cfg) (mode cfg))), s)
         \<and> routing cfg SERVER_IP req s
             = (Send 403 (denialPage (ssid cfg) (mode cfg)), Some s)
         \<and> fst (routing cfg SERVER_IP req s) \<noteq> website req
         \<and> (\<exists>before after. denialPage (ssid cfg) (mode cfg) = before @ ssid cfg @ after)
         \<and> (body req = Parsed password
              \<longrightarrow> app cfg SERVER_IP req s
                  = (Send 403 (denialPage (ssid cfg) (mode cfg)), Some s))"
proof -
  have gate: "requireNetworkAccess cfg SERVER_IP req s
              = Inr (Respond (Send 403 (denialPage (ssid cfg) (mode cfg))), s)"
    using assms(3) by (rule requireNetworkAccess_denied)
  have answer: "routing cfg SERVER_IP req s
                = (Send 403 (denialPage (ssid cfg) (mode cfg)), Some s)"
    using assms(1,2) gate by (simp add: routing_def networkValidation_def)
  have other: "fst (routing cfg SERVER_IP req s) \<noteq> website req"
    using answer website_not_403[of req] by (simp del: not_False_eq_True) metis
  have whole: "app cfg SERVER_IP req s
               = (Send 403 (denialPage (ssid cfg) (mode cfg)), Some s)"
    if "body req = Parsed password"
    using that answer by (simp add: app_def)
  show ?thesis
    using gate answer other whole denialPage_names_network by blast
qed

theorem gate_denial_is_403_witness:
  "routes localConfig ''192.168.8.101'' (requestFrom GET ''/index.html'' ''103.45.67.89'')
     newSession = None
   \<and> \<not> isAdminPath (path (requestFrom GET ''/index.html'' ''103.45.67.89''))
   \<and> isOnCorrectNetwork localConfig ''192.168.8.101''
        (requestFrom GET ''/index.html'' ''103.45.67.89'') = Inr False
   \<and> body (requestFrom GET ''/index.html'' ''103.45.67.89'') = Parsed None
   \<and> app localConfig ''192.168.8.101'' (requestFrom GET ''/index.html'' ''103.45.67.89'')
        newSession
       = (Send 403 (denialPage (ssid localConfig) (mode localConfig)), Some newSession)"
proof -
  let ?req = "requestFrom GET ''/index.html'' ''103.45.67.89''"
  have r: "routes localConfig ''192.168.8.101'' ?req newSession = None"
    by (simp add: route_defs requestFrom_def)
  have a: "\<not> isAdminPath (path ?req)"
    by (simp add: isAdminPath_def requestFrom_def)
  have d: "isOnCorrectNetwork localConfig ''192.168.8.101'' ?req = Inr False"
    by (simp add: network_defs fixture_defs)
  have b: "body ?req = Parsed None"
    by (simp add: requestFrom_def)
  from gate_denial_is_403[OF r a d, of None] b
  have "app localConfig ''192.168.8.101'' ?req newSession
        = (Send 403 (denialPage (ssid localConfig) (mode localConfig)), Some newSession)"
    by blast
  then show ?thesis
    using r a d b by blast
qed

lemma routes_captive_path:
  assumes "isGet (reqMethod req)"
    and "path req = ''/hotspot-detect.html'' \<or> path req = ''/generate_204''
         \<or> path req = ''/gen_204'' \<or> path req = ''/ncsi.txt''
         \<or> path req = ''/connecttest.txt''"
  shows "routes cfg SERVER_IP req s
         = Some (Redirect 302 (getServerUrl cfg SERVER_IP req), Some s)"
proof -
  have m: "reqMethod req \<noteq> POST"
    using assms(1) by (auto simp: isGet_def)
  from assms(2) show ?thesis
  proof (elim disjE)
    assume "path req = ''/hotspot-detect.html''"
    then show ?thesis
      using assms(1) m by (simp add: routes_def routeMatch_def toLowerAscii_def captivePaths_def)
  next
    assume "path req = ''/generate_204''"
    then show ?thesis
      using assms(1) m by (simp add: routes_def routeMatch_def toLowerAscii_def captivePaths_def)
  next
    assume "path req = ''/gen_204''"
    then show ?thesis
      using assms(1) m by (simp add: routes_def routeMatch_def toLowerAscii_def captivePaths_def)
  next
    assume "path req = ''/ncsi.txt''"
    then show ?thesis
      using assms(1) m by (simp add: routes_def routeMatch_def toLowerAscii_def captivePaths_def)
  next
    assume "path req = ''/connecttest.txt''"
    then show ?thesis
      using assms(1) m by (simp add: routes_def routeMatch_def toLowerAscii_def captivePaths_def)
  qed
qed

text \<open>
  Claim C8, as stated, for every request to a probe path, fails in two ways. The probe
  routes are registered with \<^verbatim>\<open>app.get\<close>, so a POST to \<^verbatim>\<open>/generate_204\<close>
  matches none of them, reaches the network validation and, from a client outside the
  subnet, is answered with 403. And the body parsers come before the probe routes, so
  a GET to \<^verbatim>\<open>/generate_204\<close> with a malformed JSON body is answered with the
  error page of status 400. Neither is a redirect.
\<close>

theorem captive_path_counterexample:
  "path (requestFrom POST ''/generate_204'' ''103.45.67.89'') \<in> set captivePaths
   \<and> app localConfig ''192.168.8.101'' (requestFrom POST ''/generate_204'' ''103.45.67.89'')
        newSession
       = (Send 403 (denialPage ''Pathum'' ''local''), Some newSession)
   \<and> path (malformedBody (requestFrom GET ''/generate_204'' ''192.168.8.102''))
       \<in> set captivePaths
   \<and> app localConfig ''192.168.8.101''
        (malformedBody (requestFrom GET ''/generate_204'' ''192.168.8.102'')) newSession
       = (ErrorPage 400, Some newSession)"
  by (simp add: app_def routing_def route_defs networkValidation_def isAdminPath_def
      requireNetworkAccess_def network_defs fixture_defs)

text \<open>
  Claim C8, amended. Every GET or HEAD request to one of the five probe paths that
  the body parsers pass on (every request without body, and every request whose body
  they accept) is answered with a 302 redirect, for every configuration, client
  address and session: the network validation is not consulted and the session is
  left as it was. The target is the URL of \<^verbatim>\<open>getServerUrl\<close>: scheme, detected
  server address and port of the configuration when an address was detected, and
  otherwise, with the fallback address \<^verbatim>\<open>0.0.0.0\<close>, the protocol and the
  \<^verbatim>\<open>Host\<close> header of the request itself.
\<close>

theorem captive_probe_redirects:
  assumes "isGet (reqMethod req)" and "path req \<in> set captivePaths"
    and "body req = Parsed password"
  shows "app cfg SERVER_IP req s = (Redirect 302 (getServerUrl cfg SERVER_IP req), Some s)
         \<and> getServerUrl cfg SERVER_IP req
             = (if SERVER_IP \<noteq> ''0.0.0.0''
                then (if httpsEnabled cfg then ''https://'' @ SERVER_IP @ '':'' @ httpsPort cfg
                      else ''http://'' @ SERVER_IP @ '':'' @ port cfg)
                else env_or (protocol req) ''http'' @ ''://''
                     @ (case host req of None \<Rightarrow> ''undefined'' | Some h \<Rightarrow> h))"
proof -
  have "path req = ''/hotspot-detect.html'' \<or> path req = ''/generate_204''
         \<or> path req = ''/gen_204'' \<or> path req = ''/ncsi.txt''
         \<or> path req = ''/connecttest.txt''"
    using assms(2) unfolding captivePaths_def by simp
  from routes_captive_path[OF assms(1) this]
  have "app cfg SERVER_IP req s = (Redirect 302 (getServerUrl cfg SERVER_IP req), Some s)"
    using assms(3) by (simp add: app_def routing_def)
  then show ?thesis
    by (simp add: getServerUrl_def)
qed

theorem captive_probe_redirects_witness:
  "isGet (reqMethod (requestFrom GET ''/generate_204'' ''103.45.67.89''))
   \<and> path (requestFrom GET ''/generate_204'' ''103.45.67.89'') \<in> set captivePaths
   \<and> body (requestFrom GET ''/generate_204'' ''103.45.67.89'') = Parsed None
   \<and> isOnCorrectNetwork localConfig ''192.168.8.101''
        (requestFrom GET ''/generate_204'' ''103.45.67.89'') = Inr False
   \<and> app localConfig ''192.168.8.101'' (requestFrom GET ''/generate_204'' ''103.45.67.89'')
        newSession
       = (Redirect 302 ''https://192.168.8.101:8443'', Some newSession)
   \<and> app localConfig ''0.0.0.0'' (requestFrom GET ''/generate_204'' ''103.45.67.89'')
        newSession
       = (Redirect 302 ''https://example.test'', Some newSession)"
proof -
  let ?req = "requestFrom GET ''/generate_204'' ''103.45.67.89''"
  have g: "isGet (reqMethod ?req)"
    by (simp add: isGet_def requestFrom_def)
  have p: "path ?req \<in> set captivePaths"
    by (simp add: captivePaths_def requestFrom_def)
  have b: "body ?req = Parsed None"
    by (simp add: requestFrom_def)
  have d: "isOnCorrectNetwork localConfig ''192.168.8.101'' ?req = Inr False"
    by (simp add: network_defs fixture_defs)
  have u: "getServerUrl localConfig ''192.168.8.101'' ?req = ''https://192.168.8.101:8443''"
    by (simp add: getServerUrl_def fixture_defs)
  have v: "getServerUrl localConfig ''0.0.0.0'' ?req = ''https://example.test''"
    by (simp add: getServerUrl_def fixture_defs)
  have "app localConfig ''192.168.8.101'' ?req newSession
        = (Redirect 302 ''https://192.168.8.101:8443'', Some newSession)"
    using captive_probe_redirects[OF g p b, of localConfig "''192.168.8.101''" newSession] u
    by simp
  moreover have "app localConfig ''0.0.0.0'' ?req newSession
        = (Redirect 302 ''https://example.test'', Some newSession)"
    using captive_probe_redirects[OF g p b, of localConfig "''0.0.0.0''" newSession] v
    by simp
  ultimately show ?thesis
    using g p b d by blast
qed

text \<open>
  Which handlers set the flag: a route answers with an authenticated session that was
  not authenticated before only if it is the login route, and the application does so
  only through the login route or after the subnet check has allowed the client.
\<close>

lemma routes_authenticates:
  assumes "routes cfg SERVER_IP req s = Some (r, Some s')"
    and "\<not> authenticated s" and "authenticated s'"
  shows "reqMethod req = POST \<and> routeMatch ''/api/login'' (path req)"
  using assms by (auto simp: routes_def split: if_splits)

lemma app_authenticates:
  assumes "app cfg SERVER_IP req s = (r, Some s')"
    and "\<not> authenticated s" and "authenticated s'"
  shows "(reqMethod req = POST \<and> routeMatch ''/api/login'' (path req))
         \<or> isOnCorrectNetwork cfg SERVER_IP req = Inr True"
proof (cases "routes cfg SERVER_IP req s")
  case (Some answer)
  then have "routes cfg SERVER_IP req s = Some (r, Some s')"
    using assms by (auto simp: app_def routing_def split: parsed_body.splits)
  from routes_authenticates[OF this assms(2,3)] show ?thesis by simp
next
  case None
  then show ?thesis
    using assms
    by (auto simp: app_def routing_def networkValidation_def requireNetworkAccess_def
        split: if_splits sum.splits gate.splits prod.splits parsed_body.splits)
qed

text \<open>
  Claim C2 is right about the gate and wrong about the login route. The route
  \<^verbatim>\<open>POST /api/login\<close> is registered before the network validation and sets the flag
  without any check: a client at \<^verbatim>\<open>103.45.67.89\<close>, which the subnet check of the
  server at \<^verbatim>\<open>192.168.8.101\<close> denies, leaves it with an authenticated session, and
  an upgrade presenting that session is accepted.
\<close>

theorem login_route_skips_network_check:
  "isOnCorrectNetwork localConfig ''192.168.8.101''
     (requestFrom POST ''/api/login'' ''103.45.67.89'') = Inr False
   \<and> snd (app localConfig ''192.168.8.101''
             (requestFrom POST ''/api/login'' ''103.45.67.89'') newSession)
       = Some (newSession\<lparr> authenticated := True,
                             connectedAt := Some ''2025-01-01T00:00:00.000Z'' \<rparr>)
   \<and> connections (step localConfig
         (Upgrade 1 (snd (app localConfig ''192.168.8.101''
                            (requestFrom POST ''/api/login'' ''103.45.67.89'') newSession)))
         idleServer) = [1]"
proof -
  let ?req = "requestFrom POST ''/api/login'' ''103.45.67.89''"
  have d: "isOnCorrectNetwork localConfig ''192.168.8.101'' ?req = Inr False"
    by (simp add: network_defs fixture_defs)
  have a: "snd (app localConfig ''192.168.8.101'' ?req newSession)
           = Some (newSession\<lparr> authenticated := True,
                                 connectedAt := Some ''2025-01-01T00:00:00.000Z'' \<rparr>)"
    by (simp add: app_def routing_def route_defs requestFrom_def)
  have u: "connections (step localConfig
             (Upgrade 1 (Some (newSession\<lparr> authenticated := True,
                                 connectedAt := Some ''2025-01-01T00:00:00.000Z'' \<rparr>)))
             idleServer) = [1]"
    by (simp add: onUpgrade_def sessionAuthenticated_def idleServer_def)
  show ?thesis
    using d a u by (simp only: simp_thms)
qed

section \<open>The upgrade gate and the relay\<close>

lemma step_connections_udpSent:
  assumes "connections st' = connections st" and "udpSent st' = udpSent st"
  shows "connections (step cfg e st') = connections (step cfg e st)
         \<and> udpSent (step cfg e st') = udpSent (step cfg e st)"
  using assms by (cases e) (simp_all add: onUpgrade_def onMessage_def)

lemma step_without_connection:
  assumes "socketOf e = sock" and "sock \<notin> set (connections st)"
    and "\<forall>so. e = Upgrade sock so \<longrightarrow> \<not> sessionAuthenticated so"
  shows "connections (step cfg e st) = connections st \<and> udpSent (step cfg e st) = udpSent st"
  using assms by (cases e) (simp_all add: onUpgrade_def)

lemma step_other_socket:
  assumes "socketOf e \<noteq> sock" and "sock \<notin> set (connections st)"
  shows "sock \<notin> set (connections (step cfg e st))"
  using assms by (cases e) (simp_all add: onUpgrade_def onMessage_def)

text \<open>
  A socket that holds no WebSocket and is never upgraded with an authenticated session
  adds nothing to what is sent: the datagrams are those of the run without its events.
\<close>

lemma run_without_connection:
  assumes "sock \<notin> set (connections st)"
    and "connections st' = connections st" and "udpSent st' = udpSent st"
    and "\<forall>so. Upgrade sock so \<in> set evs \<longrightarrow> \<not> sessionAuthenticated so"
  shows "udpSent (run cfg evs st')
         = udpSent (run cfg (filter (\<lambda>e. socketOf e \<noteq> sock) evs) st)"
  using assms
proof (induction evs arbitrary: st st')
  case Nil
  then show ?case by simp
next
  case (Cons e es)
  have later: "\<forall>so. Upgrade sock so \<in> set es \<longrightarrow> \<not> sessionAuthenticated so"
    using Cons.prems(4) by simp
  show ?case
  proof (cases "socketOf e = sock")
    case True
    have "sock \<notin> set (connections st')"
      using Cons.prems(1,2) by simp
    moreover have "\<forall>so. e = Upgrade sock so \<longrightarrow> \<not> sessionAuthenticated so"
      using Cons.prems(4) by simp
    ultimately have "connections (step cfg e st') = connections st'
                     \<and> udpSent (step cfg e st') = udpSent st'"
      using True step_without_connection by blast
    then have "connections (step cfg e st') = connections st"
      and "udpSent (step cfg e st') = udpSent st"
      using Cons.prems(2,3) by simp_all
    from Cons.IH[OF Cons.prems(1) this later] show ?thesis
      using True by simp
  next
    case False
    have "sock \<notin> set (connections (step cfg e st))"
      using False Cons.prems(1) by (rule step_other_socket)
    moreover have "connections (step cfg e st') = connections (step cfg e st)"
      and "udpSent (step cfg e st') = udpSent (step cfg e st)"
      using step_connections_udpSent[OF Cons.prems(2,3)] by simp_all
    ultimately show ?thesis
      using False Cons.IH later by simp
  qed
qed

text \<open>
  Claim C3. An upgrade request that carries no session, or a session that is not
  authenticated, is refused at the upgrade: the server writes the 401 status line to
  the socket and destroys it, and does nothing else. \<^verbatim>\<open>wss.handleUpgrade\<close> is not
  called, so the socket gets no WebSocket and no datagram is sent. Nor is one sent
  later on its account: if the socket held no WebSocket before and no later upgrade on
  it presents an authenticated session, the datagrams of any continuation are those of
  the same continuation with every event of that socket left out.
\<close>

theorem unauthenticated_upgrade_refused:
  assumes "so = None \<or> (\<exists>s. so = Some s \<and> \<not> authenticated s)"
  shows "step cfg (Upgrade sock so) st
           = st\<lparr> socketWrites := socketWrites st @ [(sock, unauthorizedLine)],
                  destroyed := destroyed st @ [sock] \<rparr>
         \<and> connections (step cfg (Upgrade sock so) st) = connections st
         \<and> udpSent (step cfg (Upgrade sock so) st) = udpSent st
         \<and> (sock \<notin> set (connections st)
              \<and> (\<forall>so'. Upgrade sock so' \<in> set evs \<longrightarrow> \<not> sessionAuthenticated so')
            \<longrightarrow> udpSent (run cfg (Upgrade sock so # evs) st)
                = udpSent (run cfg (filter (\<lambda>e. socketOf e \<noteq> sock) evs) st))"
proof -
  have no: "\<not> sessionAuthenticated so"
    using assms by (auto simp: sessionAuthenticated_def)
  then have refused: "step cfg (Upgrade sock so) st
           = st\<lparr> socketWrites := socketWrites st @ [(sock, unauthorizedLine)],
                  destroyed := destroyed st @ [sock] \<rparr>"
    by (simp add: onUpgrade_def)
  then have same: "connections (step cfg (Upgrade sock so) st) = connections st"
      "udpSent (step cfg (Upgrade sock so) st) = udpSent st"
    by simp_all
  have "udpSent (run cfg (Upgrade sock so # evs) st)
        = udpSent (run cfg (filter (\<lambda>e. socketOf e \<noteq> sock) evs) st)"
    if "sock \<notin> set (connections st)"
      and "\<forall>so'. Upgrade sock so' \<in> set evs \<longrightarrow> \<not> sessionAuthenticated so'"
    using run_without_connection[OF that(1) same that(2), of cfg] by simp
  then show ?thesis
    using refused same by blast
qed

theorem unauthenticated_upgrade_refused_witness:
  "(Some newSession = None \<or> (\<exists>s. Some newSession = Some s \<and> \<not> authenticated s))
   \<and> step localConfig (Upgrade 7 (Some newSession)) idleServer
       = idleServer\<lparr> socketWrites := [(7, unauthorizedLine)], destroyed := [7] \<rparr>
   \<and> udpSent (run localConfig
        [Upgrade 7 (Some newSession), Message 7 [1, 2, 3], Close 7] idleServer) = []"
proof -
  let ?evs = "[Message 7 [1, 2, 3], Close 7]"
  have h: "Some newSession = None \<or> (\<exists>s. Some newSession = Some s \<and> \<not> authenticated s)"
    by (simp add: newSession_def)
  have c: "7 \<notin> set (connections idleServer)
           \<and> (\<forall>so'. Upgrade 7 so' \<in> set ?evs \<longrightarrow> \<not> sessionAuthenticated so')"
    by (simp add: idleServer_def)
  from unauthenticated_upgrade_refused[OF h, of localConfig 7 idleServer ?evs] c
  have s: "step localConfig (Upgrade 7 (Some newSession)) idleServer
           = idleServer\<lparr> socketWrites := socketWrites idleServer @ [(7, unauthorizedLine)],
                          destroyed := destroyed idleServer @ [7] \<rparr>"
    and r: "udpSent (run localConfig (Upgrade 7 (Some newSession) # ?evs) idleServer)
            = udpSent (run localConfig (filter (\<lambda>e. socketOf e \<noteq> 7) ?evs) idleServer)"
    by blast+
  have "step localConfig (Upgrade 7 (Some newSession)) idleServer
        = idleServer\<lparr> socketWrites := [(7, unauthorizedLine)], destroyed := [7] \<rparr>"
    using s by (simp add: idleServer_def)
  moreover have "udpSent (run localConfig
        [Upgrade 7 (Some newSession), Message 7 [1, 2, 3], Close 7] idleServer) = []"
    using r by (simp add: idleServer_def)
  ultimately show ?thesis
    using h by blast
qed

text \<open>
  Claim C4. For every sequence of events in which each frame arrives on an accepted
  connection, the calls of \<^verbatim>\<open>udp.send\<close> are, in the order of arrival, one per
  frame, each with the bytes of its frame as payload and with the port and address of
  the configuration as destination; events of other kinds send nothing. The order of
  all frames is kept, hence that of the frames of each connection. The configuration
  fixes the destination at \<^verbatim>\<open>192.168.1.25\<close>, port 5005, whatever the environment.
\<close>

theorem relay_forwards_each_frame:
  assumes "messagesOnConnections cfg st evs"
  shows "udpSent (run cfg evs st)
           = udpSent st
             @ map (\<lambda>data. \<lparr> payload = data, destPort = udpPort cfg,
                               destAddress = esp32Ip cfg \<rparr>) (framesOf evs)
         \<and> udpPort (config_of_env e) = 5005
         \<and> esp32Ip (config_of_env e) = ''192.168.1.25''"
proof -
  have "udpSent (run cfg evs st)
           = udpSent st
             @ map (\<lambda>data. \<lparr> payload = data, destPort = udpPort cfg,
                               destAddress = esp32Ip cfg \<rparr>) (framesOf evs)"
    using assms
  proof (induction evs arbitrary: st)
    case Nil
    then show ?case by simp
  next
    case (Cons ev evs)
    show ?case
    proof (cases ev)
      case (Upgrade sock so)
      then have "messagesOnConnections cfg (step cfg ev st) evs"
        using Cons.prems by simp
      from Cons.IH[OF this] show ?thesis
        using Upgrade by (simp add: onUpgrade_def)
    next
      case (Message sock data)
      then have "sock \<in> set (connections st)"
        and "messagesOnConnections cfg (step cfg ev st) evs"
        using Cons.prems by auto
      from Cons.IH[OF this(2)] this(1) show ?thesis
        using Message by (simp add: onMessage_def)
    next
      case (Close sock)
      then have "messagesOnConnections cfg (step cfg ev st) evs"
        using Cons.prems by simp
      from Cons.IH[OF this] show ?thesis
        using Close by simp
    next
      case (Error sock msg)
      then have "messagesOnConnections cfg (step cfg ev st) evs"
        using Cons.prems by simp
      from Cons.IH[OF this] show ?thesis
        using Error by simp
    qed
  qed
  then show ?thesis
    by (simp add: config_of_env_def)
qed

theorem relay_forwards_each_frame_witness:
  "messagesOnConnections localConfig idleServer
     [Upgrade 1 (Some (newSession\<lparr> authenticated := True \<rparr>)),
      Upgrade 2 (Some (newSession\<lparr> authenticated := True \<rparr>)),
      Message 1 [1, 2], Message 2 [7], Message 1 [3]]
   \<and> udpSent (run localConfig
       [Upgrade 1 (Some (newSession\<lparr> authenticated := True \<rparr>)),
        Upgrade 2 (Some (newSession\<lparr> authenticated := True \<rparr>)),
        Message 1 [1, 2], Message 2 [7], Message 1 [3]] idleServer)
     = [\<lparr> payload = [1, 2], destPort = 5005, destAddress = ''192.168.1.25'' \<rparr>,
        \<lparr> payload = [7], destPort = 5005, destAddress = ''192.168.1.25'' \<rparr>,
        \<lparr> payload = [3], destPort = 5005, destAddress = ''192.168.1.25'' \<rparr>]"
proof -
  let ?evs = "[Upgrade 1 (Some (newSession\<lparr> authenticated := True \<rparr>)),
      Upgrade 2 (Some (newSession\<lparr> authenticated := True \<rparr>)),
      Message 1 [1, 2], Message 2 [7], Message 1 [3]]"
  have a: "messagesOnConnections localConfig idleServer ?evs"
    by (simp add: onUpgrade_def onMessage_def sessionAuthenticated_def idleServer_def)
  have f: "framesOf ?evs = [[1, 2], [7], [3]]"
    by simp
  have p: "udpPort localConfig = 5005" and i: "esp32Ip localConfig = ''192.168.1.25''"
    by (simp_all add: fixture_defs)
  from relay_forwards_each_frame[OF a, of noEnv]
  have "udpSent (run localConfig ?evs idleServer)
        = udpSent idleServer
          @ map (\<lambda>data. \<lparr> payload = data, destPort = udpPort localConfig,
                            destAddress = esp32Ip localConfig \<rparr>) (framesOf ?evs)"
    by (rule conjunct1)
  then have "udpSent (run localConfig ?evs idleServer)
     = [\<lparr> payload = [1, 2], destPort = 5005, destAddress = ''192.168.1.25'' \<rparr>,
        \<lparr> payload = [7], destPort = 5005, destAddress = ''192.168.1.25'' \<rparr>,
        \<lparr> payload = [3], destPort = 5005, destAddress = ''192.168.1.25'' \<rparr>]"
    by (simp only: f p i) (simp add: idleServer_def)
  then show ?thesis
    using a by blast
qed

end
